theory Spec2Isabelle
  imports Complex_Main
begin

section \<open>Arrays\<close>

text \<open>
  The module works on numpy arrays. An array is its shape together with its elements in
  row-major (C) order, which is the order in which numpy's \<^verbatim>\<open>ravel\<close> lists them. An array is
  well formed when the number of elements is the product of the shape. Arrays are built with
  \<open>tabulate\<close>, from a shape and a function of the multi-index, and read with \<open>item\<close>.
\<close>

datatype 'a ndarray = NDArray (shape: "nat list") (elems: "'a list")

fun indices :: "nat list \<Rightarrow> nat list list" where
  "indices [] = [[]]"
| "indices (n # ns) = concat (map (\<lambda>i. map ((#) i) (indices ns)) [0..<n])"

fun flat_index :: "nat list \<Rightarrow> nat list \<Rightarrow> nat" where
  "flat_index (n # ns) (i # js) = i * prod_list ns + flat_index ns js"
| "flat_index _ _ = 0"

definition item :: "'a ndarray \<Rightarrow> nat list \<Rightarrow> 'a" where
  "item a idx = elems a ! flat_index (shape a) idx"

definition tabulate :: "nat list \<Rightarrow> (nat list \<Rightarrow> 'a) \<Rightarrow> 'a ndarray" where
  "tabulate sh f = NDArray sh (map f (indices sh))"

definition valid_index :: "nat list \<Rightarrow> nat list \<Rightarrow> bool" where
  "valid_index sh idx = list_all2 (<) idx sh"

definition well_formed :: "'a ndarray \<Rightarrow> bool" where
  "well_formed a = (length (elems a) = prod_list (shape a))"

section \<open>The numpy and scipy operations the module calls\<close>

text \<open>
  Python exceptions the modelled functions can raise. The assertion error carries its message.
\<close>

datatype error = ValueError | TypeError | ZeroDivisionError | OverflowError
  | AssertionError string | NameError string

text \<open>\<^verbatim>\<open>len(a)\<close> of an array of rank at least one: the size of its first axis.\<close>

definition len :: "'a ndarray \<Rightarrow> nat" where
  "len a = hd (shape a)"

text \<open>
  A bound of a Python slice over an axis of size \<open>n\<close>: a missing bound takes the default, a
  negative bound counts from the end, and both are clamped into \<open>0..n\<close>.
\<close>

definition slice_bound :: "nat \<Rightarrow> nat \<Rightarrow> int option \<Rightarrow> nat" where
  "slice_bound n dflt b =
     (case b of
        None \<Rightarrow> dflt
      | Some i \<Rightarrow> if i < 0 then nat (max (i + int n) 0) else min (nat i) n)"

text \<open>\<^verbatim>\<open>a[start:stop]\<close>: a slice of the first axis; an empty range gives an empty axis.\<close>

definition slice0 :: "'a ndarray \<Rightarrow> int option \<Rightarrow> int option \<Rightarrow> 'a ndarray" where
  "slice0 a start stop =
     (let n = len a;
          s = slice_bound n 0 start;
          e = slice_bound n n stop
      in tabulate ((e - s) # tl (shape a)) (\<lambda>idx. item a ((s + hd idx) # tl idx)))"

text \<open>\<^verbatim>\<open>a[:, None]\<close> on a one-dimensional array: shape \<open>(T)\<close> becomes \<open>(T, 1)\<close>.\<close>

definition add_axis1 :: "'a ndarray \<Rightarrow> 'a ndarray" where
  "add_axis1 a = tabulate [len a, 1] (\<lambda>idx. item a [hd idx])"

text \<open>\<^verbatim>\<open>a.T\<close>: all axes reversed.\<close>

definition transpose_all :: "'a ndarray \<Rightarrow> 'a ndarray" where
  "transpose_all a = tabulate (rev (shape a)) (\<lambda>idx. item a (rev idx))"

text \<open>\<^verbatim>\<open>np.transpose(a, (1, 0, 2))\<close> on a three-dimensional array.\<close>

definition transpose_102 :: "'a ndarray \<Rightarrow> 'a ndarray" where
  "transpose_102 a =
     tabulate [shape a ! 1, shape a ! 0, shape a ! 2] (\<lambda>idx. item a [idx ! 1, idx ! 0, idx ! 2])"

text \<open>Iterating over an array of rank at least one yields its sub-arrays along the first axis.\<close>

definition iter :: "'a ndarray \<Rightarrow> 'a ndarray list" where
  "iter a = map (\<lambda>i. tabulate (tl (shape a)) (\<lambda>idx. item a (i # idx))) [0..<len a]"

text \<open>
  \<^verbatim>\<open>scipy.linalg.hankel(c, r)\<close>: both arguments are flattened, the values are \<open>c\<close> followed
  by \<open>r[1:]\<close> (the first entry of \<open>r\<close> is ignored), and entry \<open>(a, b)\<close> of the
  \<open>len(c) \<times> len(r)\<close> result is value number \<open>a + b\<close>.
\<close>

definition hankel :: "'a ndarray \<Rightarrow> 'a ndarray \<Rightarrow> 'a ndarray" where
  "hankel c r =
     (let vals = elems c @ drop 1 (elems r)
      in tabulate [length (elems c), length (elems r)] (\<lambda>idx. vals ! (idx ! 0 + idx ! 1)))"

text \<open>
  \<^verbatim>\<open>np.dstack\<close> of a list of two-dimensional arrays of one shape \<open>(M, N)\<close>: the arrays become
  the slices along a new last axis. An empty list, or arrays of different shapes, raise
  \<^verbatim>\<open>ValueError\<close>.
\<close>

definition dstack :: "'a ndarray list \<Rightarrow> error + 'a ndarray" where
  "dstack ms =
     (if ms = [] then Inl ValueError
      else if \<not> list_all (\<lambda>m. shape m = shape (hd ms)) ms then Inl ValueError
      else Inr (tabulate (shape (hd ms) @ [length ms])
                  (\<lambda>idx. item (ms ! (idx ! 2)) [idx ! 0, idx ! 1])))"

text \<open>
  \<^verbatim>\<open>np.stack\<close>: the arrays become the slices along a new first axis, with the same two
  failures.
\<close>

definition np_stack :: "'a ndarray list \<Rightarrow> error + 'a ndarray" where
  "np_stack xs =
     (if xs = [] then Inl ValueError
      else if \<not> list_all (\<lambda>m. shape m = shape (hd xs)) xs then Inl ValueError
      else Inr (tabulate (length xs # shape (hd xs)) (\<lambda>idx. item (xs ! hd idx) (tl idx))))"

text \<open>A list comprehension whose body can raise: the first exception ends it.\<close>

fun collect :: "(error + 'a) list \<Rightarrow> error + 'a list" where
  "collect [] = Inr []"
| "collect (x # xs) =
     (case x of
        Inl e \<Rightarrow> Inl e
      | Inr v \<Rightarrow> (case collect xs of Inl e \<Rightarrow> Inl e | Inr vs \<Rightarrow> Inr (v # vs)))"

section \<open>Hankel matrices\<close>

text \<open>
  The source's \<^verbatim>\<open>_hankel_matrix(data, q, p=None)\<close>. A one-dimensional series gets a channel
  axis. \<^verbatim>\<open>not p\<close> holds for a missing \<open>p\<close> and for \<open>p = 0\<close>, and then \<open>p = len(data) - q\<close>. For
  every row of \<^verbatim>\<open>data.T\<close> (one channel) the Hankel matrix of the slices
  \<^verbatim>\<open>row[-(p + q) : -p]\<close> and \<^verbatim>\<open>row[-p - 1 :]\<close> is built; the matrices are stacked along a last
  axis, the first two axes are swapped and the last row is dropped. A zero-dimensional array
  has no length and cannot be iterated: \<^verbatim>\<open>TypeError\<close>.
\<close>

definition u_hankel_matrix :: "'a ndarray \<Rightarrow> int \<Rightarrow> int option \<Rightarrow> error + 'a ndarray" where
  "u_hankel_matrix data0 q p0 =
     (if shape data0 = [] then Inl TypeError
      else
        let data = (if length (shape data0) = 1 then add_axis1 data0 else data0);
            p = (if p0 = None \<or> p0 = Some 0 then int (len data) - q else the p0);
            all_hmats =
              map (\<lambda>row. hankel (slice0 row (Some (- (p + q))) (Some (- p)))
                                 (slice0 row (Some (- p - 1)) None))
                  (iter (transpose_all data))
        in case dstack all_hmats of
             Inl e \<Rightarrow> Inl e
           | Inr out \<Rightarrow> Inr (slice0 (transpose_102 out) None (Some (- 1))))"

text \<open>
  The source's \<^verbatim>\<open>hankel_matrix(data, q, p=None)\<close>: a three-dimensional batch is processed item
  by item and the results are stacked; a one-dimensional series gets a channel axis.
\<close>

definition hankel_matrix :: "'a ndarray \<Rightarrow> int \<Rightarrow> int option \<Rightarrow> error + 'a ndarray" where
  "hankel_matrix data q p =
     (if length (shape data) = 3 then
        (case collect (map (\<lambda>item. u_hankel_matrix item q p) (iter data)) of
           Inl e \<Rightarrow> Inl e
         | Inr hs \<Rightarrow> np_stack hs)
      else u_hankel_matrix (if length (shape data) = 1 then add_axis1 data else data) q p)"

section \<open>Floating-point arithmetic\<close>

text \<open>
  The numbers that \<^verbatim>\<open>train_test\<close> computes with are IEEE-754 doubles. Their arithmetic
  (rounding to the nearest double, overflow, signed zeros, infinities and \<^verbatim>\<open>nan\<close>) and numpy's
  reductions (whose order of summation depends on the memory layout of the array) belong to
  the Python runtime and to numpy, not to the module. They are taken as a parameter: a record
  of operations on a type \<open>'f\<close> of doubles. Every statement about \<^verbatim>\<open>train_test\<close> below holds
  for every such record, so for the arithmetic of the machine as well.

  \<^item> \<open>f_of_int\<close>: the conversion of a Python integer to a float, which raises
    \<^verbatim>\<open>OverflowError\<close> for an integer that is too large;
  \<^item> \<open>f_sub\<close>, \<open>f_mul\<close>, \<open>f_div\<close>: subtraction, multiplication and division of doubles as the
    hardware does them (a division by zero gives an infinity or \<^verbatim>\<open>nan\<close>);
  \<^item> \<open>f_is_zero\<close>: the comparison \<^verbatim>\<open>x == 0.0\<close>;
  \<^item> \<open>f_int\<close>: Python's \<^verbatim>\<open>int(x)\<close>, which discards the fractional part of a finite double
    and raises \<^verbatim>\<open>OverflowError\<close> for an infinity and \<^verbatim>\<open>ValueError\<close> for \<^verbatim>\<open>nan\<close>;
  \<^item> \<open>np_mean\<close>, \<open>np_std\<close>: \<^verbatim>\<open>np.mean\<close> and \<^verbatim>\<open>np.std\<close> over all elements of an array.
\<close>

record 'f float_ops =
  f_of_int :: "int \<Rightarrow> error + 'f"
  f_sub :: "'f \<Rightarrow> 'f \<Rightarrow> 'f"
  f_mul :: "'f \<Rightarrow> 'f \<Rightarrow> 'f"
  f_div :: "'f \<Rightarrow> 'f \<Rightarrow> 'f"
  f_is_zero :: "'f \<Rightarrow> bool"
  f_int :: "'f \<Rightarrow> error + int"
  np_mean :: "'f ndarray \<Rightarrow> 'f"
  np_std :: "'f ndarray \<Rightarrow> 'f"

text \<open>An elementwise operation keeps the shape.\<close>

definition map_array :: "('a \<Rightarrow> 'b) \<Rightarrow> 'a ndarray \<Rightarrow> 'b ndarray" where
  "map_array f a = NDArray (shape a) (map f (elems a))"

section \<open>Train and test partitions\<close>

text \<open>
  The value that \<^verbatim>\<open>train_test\<close> binds to \<^verbatim>\<open>n_split\<close>:
  \<^verbatim>\<open>int((split/(1-split))*sample_size)\<close>, evaluated in Python's order. The integer \<open>1\<close> is
  converted to a float and \<open>split\<close> subtracted from it; the division of Python floats raises
  \<^verbatim>\<open>ZeroDivisionError\<close> when that divisor is zero; then \<^verbatim>\<open>sample_size\<close> is converted to a
  float, the product is formed in doubles, and \<^verbatim>\<open>int\<close> truncates it.
\<close>

definition n_split :: "'f float_ops \<Rightarrow> 'f \<Rightarrow> int \<Rightarrow> error + int" where
  "n_split ops split sample_size =
     (case f_of_int ops 1 of
        Inl e \<Rightarrow> Inl e
      | Inr one \<Rightarrow>
          let d = f_sub ops one split in
          if f_is_zero ops d then Inl ZeroDivisionError
          else
            (case f_of_int ops sample_size of
               Inl e \<Rightarrow> Inl e
             | Inr s \<Rightarrow> f_int ops (f_mul ops (f_div ops split d) s)))"

text \<open>
  The source's \<^verbatim>\<open>train_test(dataset, sample_size, time_window, std=1.0, split=0.5)\<close>. Both
  Hankel matrices are built with \<^verbatim>\<open>p=sample_size\<close>, the second from the slice
  \<^verbatim>\<open>dataset[:(n_split+time_window)]\<close>; mean and standard deviation are taken over all elements
  of the training matrix, and both matrices are rescaled with them, element by element. The
  local \<open>ns\<close> is the source's \<^verbatim>\<open>n_split\<close>. A zero-dimensional dataset has no length.
\<close>

definition train_test ::
  "'f float_ops \<Rightarrow> 'f ndarray \<Rightarrow> int \<Rightarrow> int \<Rightarrow> 'f \<Rightarrow> 'f \<Rightarrow> error + ('f ndarray \<times> 'f ndarray)"
where
  "train_test ops dataset sample_size time_window std split =
     (if shape dataset = [] then Inl TypeError
      else
        let n = int (len dataset) in
        (case n_split ops split sample_size of
           Inl e \<Rightarrow> Inl e
         | Inr ns \<Rightarrow>
             if \<not> (n > sample_size + ns)
             then Inl (AssertionError ''Not enough data to make complete split'')
             else
               (case hankel_matrix dataset time_window (Some sample_size) of
                  Inl e \<Rightarrow> Inl e
                | Inr hm_train \<Rightarrow>
                    (case hankel_matrix (slice0 dataset None (Some (ns + time_window)))
                            time_window (Some sample_size) of
                       Inl e \<Rightarrow> Inl e
                     | Inr hm_test \<Rightarrow>
                         let mn_train = np_mean ops hm_train;
                             std_train = np_std ops hm_train;
                             rescale = map_array
                               (\<lambda>x. f_div ops (f_sub ops x mn_train)
                                                (f_mul ops std std_train))
                         in Inr (rescale hm_train, rescale hm_test)))))"

section \<open>Loading a dataset file\<close>

text \<open>
  The names the module binds at top level: its imports and its function definitions, in the
  order of the source.
\<close>

definition module_globals :: "string list" where
  "module_globals =
     [''np'', ''warnings'', ''scipy'', ''hankel'', ''orthogonal_procrustes'', ''periodogram'',
      ''argrelextrema'', ''savgol_filter'', ''pdist'', ''squareform'', ''directed_hausdorff'',
      ''procrustes'', ''plt'', ''hankel_matrix'', ''_hankel_matrix'', ''train_test'',
      ''standardize_ts'', ''arff_to_data'', ''fixed_aspect_ratio'', ''plot3dproj'', ''lighter'']"

text \<open>
  Reading a name that the function does not assign: Python looks in the module's globals, then
  in the builtins, and raises \<^verbatim>\<open>NameError\<close> when neither binds it.
\<close>

definition load_global :: "string list \<Rightarrow> string \<Rightarrow> error + string" where
  "load_global builtins name =
     (if name \<in> set module_globals \<or> name \<in> set builtins then Inr name
      else Inl (NameError name))"

text \<open>
  The source's \<^verbatim>\<open>arff_to_data(path, fmt_spec=1)\<close>. Its first statement evaluates
  \<^verbatim>\<open>arff.loadarff(path)\<close>, which first reads the name \<^verbatim>\<open>arff\<close>. The call to the loader and
  the statements after it (the dispatch on \<^verbatim>\<open>fmt_spec\<close> and the reshaping) are the parameter
  \<open>body\<close>: they run only once the name has been read.
\<close>

definition arff_to_data ::
  "string list \<Rightarrow> (string \<Rightarrow> int \<Rightarrow> error + 'r) \<Rightarrow> string \<Rightarrow> int \<Rightarrow> error + 'r"
where
  "arff_to_data builtins body path fmt_spec =
     (case load_global builtins ''arff'' of
        Inl e \<Rightarrow> Inl e
      | Inr _ \<Rightarrow> body path fmt_spec)"

section \<open>Properties of arrays\<close>

lemma length_concat_blocks:
  "(\<And>i. i < n \<Longrightarrow> length (g i) = m) \<Longrightarrow> length (concat (map g [0..<n])) = n * m"
  by (induction n) simp_all

lemma nth_concat_blocks:
  "(\<And>i. i < n \<Longrightarrow> length (g i) = m) \<Longrightarrow> i < n \<Longrightarrow> j < m
    \<Longrightarrow> concat (map g [0..<n]) ! (i * m + j) = g i ! j"
proof (induction n)
  case 0
  then show ?case by simp
next
  case (Suc n)
  have len: "length (concat (map g [0..<n])) = n * m"
    using Suc.prems(1) by (intro length_concat_blocks) simp
  show ?case
  proof (cases "i < n")
    case True
    then have "i * m + j < n * m"
      using Suc.prems(3)
      by (metis add.commute mult_Suc add_less_cancel_left less_le_trans Suc_leI mult_le_mono1)
    with True Suc show ?thesis by (simp add: nth_append len)
  next
    case False
    with Suc.prems have "i = n" by simp
    then show ?thesis by (simp add: nth_append len)
  qed
qed

lemma length_indices: "length (indices sh) = prod_list sh"
  by (induction sh) (simp_all add: length_concat_blocks)

lemma flat_index_less: "valid_index sh idx \<Longrightarrow> flat_index sh idx < prod_list sh"
  unfolding valid_index_def
proof (induction idx sh rule: list_all2_induct)
  case Nil
  then show ?case by simp
next
  case (Cons i js n ns)
  have "i * prod_list ns + flat_index ns js < i * prod_list ns + prod_list ns"
    using Cons by simp
  also have "\<dots> = Suc i * prod_list ns" by simp
  also have "\<dots> \<le> n * prod_list ns"
    using Cons.hyps(1) by (intro mult_le_mono1) simp
  finally show ?case by simp
qed

lemma nth_indices: "valid_index sh idx \<Longrightarrow> indices sh ! flat_index sh idx = idx"
  unfolding valid_index_def
proof (induction idx sh rule: list_all2_induct)
  case Nil
  then show ?case by simp
next
  case (Cons i js n ns)
  have fl: "flat_index ns js < prod_list ns"
    using Cons.hyps(2) by (simp add: flat_index_less valid_index_def)
  have "concat (map (\<lambda>i. map ((#) i) (indices ns)) [0..<n]) ! (i * prod_list ns + flat_index ns js)
      = map ((#) i) (indices ns) ! flat_index ns js"
    using Cons.hyps(1) fl by (intro nth_concat_blocks) (simp_all add: length_indices)
  then show ?case using fl Cons.IH by (simp add: length_indices)
qed

lemma item_tabulate [simp]: "valid_index sh idx \<Longrightarrow> item (tabulate sh f) idx = f idx"
  by (simp add: item_def tabulate_def nth_indices flat_index_less length_indices)

lemma shape_tabulate [simp]: "shape (tabulate sh f) = sh"
  by (simp add: tabulate_def)

lemma well_formed_tabulate [simp]: "well_formed (tabulate sh f)"
  by (simp add: well_formed_def tabulate_def length_indices)

lemma set_indices: "set (indices sh) = {idx. valid_index sh idx}"
proof (induction sh)
  case Nil
  then show ?case by (auto simp: valid_index_def)
next
  case (Cons n ns)
  show ?case
  proof (rule set_eqI)
    fix idx
    show "idx \<in> set (indices (n # ns)) \<longleftrightarrow> idx \<in> {idx. valid_index (n # ns) idx}"
      using Cons by (cases idx) (auto simp: valid_index_def)
  qed
qed

lemma tabulate_cong:
  "(\<And>idx. valid_index sh idx \<Longrightarrow> f idx = g idx) \<Longrightarrow> tabulate sh f = tabulate sh g"
  by (simp add: tabulate_def set_indices)

lemma map_flat_index_indices: "map (flat_index sh) (indices sh) = [0..<prod_list sh]"
proof (rule nth_equalityI)
  show "length (map (flat_index sh) (indices sh)) = length [0..<prod_list sh]"
    by (simp add: length_indices)
next
  fix k assume "k < length (map (flat_index sh) (indices sh))"
  then have k: "k < prod_list sh" by (simp add: length_indices)
  then show "map (flat_index sh) (indices sh) ! k = [0..<prod_list sh] ! k"
  proof (induction sh arbitrary: k)
    case Nil
    then show ?case by simp
  next
    case (Cons n ns)
    then have pos: "0 < prod_list ns" by (cases "prod_list ns") simp_all
    define i j where "i = k div prod_list ns" and "j = k mod prod_list ns"
    have kij: "k = i * prod_list ns + j" by (simp add: i_def j_def)
    have j: "j < prod_list ns" using pos by (simp add: j_def)
    have i: "i < n" using Cons.prems pos by (simp add: i_def less_mult_imp_div_less)
    have "indices (n # ns) ! k = map ((#) i) (indices ns) ! j"
      unfolding kij indices.simps using i j
      by (intro nth_concat_blocks) (simp_all add: length_indices)
    then have "indices (n # ns) ! k = i # indices ns ! j"
      using j by (simp add: length_indices)
    moreover have "flat_index ns (indices ns ! j) = j"
      using Cons.IH[OF j] j by (simp add: length_indices)
    moreover have "map (flat_index (n # ns)) (indices (n # ns)) ! k
        = flat_index (n # ns) (indices (n # ns) ! k)"
      using Cons.prems by (intro nth_map) (simp only: length_indices)
    ultimately have "map (flat_index (n # ns)) (indices (n # ns)) ! k = k"
      using kij by simp
    then show ?case using Cons.prems by simp
  qed
qed

lemma tabulate_item: "well_formed a \<Longrightarrow> tabulate (shape a) (item a) = a"
proof -
  assume w: "well_formed a"
  have "map (item a) (indices (shape a)) = map ((!) (elems a)) (map (flat_index (shape a)) (indices (shape a)))"
    by (simp add: item_def)
  also have "\<dots> = elems a"
    using map_nth[of "elems a"] w by (simp add: map_flat_index_indices well_formed_def)
  finally show ?thesis by (cases a) (simp add: tabulate_def)
qed

lemma valid_index_simps [simp]:
  "valid_index [] idx \<longleftrightarrow> idx = []"
  "valid_index (n # ns) (i # js) \<longleftrightarrow> i < n \<and> valid_index ns js"
  "\<not> valid_index (n # ns) []"
  by (auto simp: valid_index_def)

lemma valid_index_ConsE:
  assumes "valid_index (n # ns) idx"
  obtains i js where "idx = i # js" "i < n" "valid_index ns js"
  using assms by (cases idx) auto

lemma indices_single: "indices [n] = map (\<lambda>i. [i]) [0..<n]"
  by (induction n) simp_all

lemma elems_tabulate_1d: "elems (tabulate [n] f) = map (\<lambda>i. f [i]) [0..<n]"
  by (simp add: tabulate_def indices_single del: indices.simps)

lemma length_elems_tabulate [simp]: "length (elems (tabulate sh f)) = prod_list sh"
  by (simp add: tabulate_def length_indices)

lemma shape_slice0: "shape (slice0 a start stop) =
   (slice_bound (len a) (len a) stop - slice_bound (len a) 0 start) # tl (shape a)"
  by (simp add: slice0_def Let_def)

lemma slice_bound_le: "dflt \<le> n \<Longrightarrow> slice_bound n dflt b \<le> n"
  by (auto simp: slice_bound_def split: option.splits)

lemma item_slice0:
  assumes "i < slice_bound (len a) (len a) stop - slice_bound (len a) 0 start"
    and "valid_index (tl (shape a)) js"
  shows "item (slice0 a start stop) (i # js) = item a ((slice_bound (len a) 0 start + i) # js)"
  using assms by (simp add: slice0_def Let_def)

lemma well_formed_slice0 [simp]: "well_formed (slice0 a start stop)"
  by (simp add: slice0_def Let_def)

lemma slice_bound_neg: "0 < k \<Longrightarrow> k \<le> n \<Longrightarrow> slice_bound n d (Some (- int k)) = n - k"
  by (auto simp: slice_bound_def)

lemma item_1d: "shape a = [n] \<Longrightarrow> item a [i] = elems a ! i"
  by (simp add: item_def)

lemma iter_transpose_all:
  assumes "shape data = [T, D]"
  shows "iter (transpose_all data) = map (\<lambda>d. tabulate [T] (\<lambda>idx. item data [hd idx, d])) [0..<D]"
proof -
  have "tabulate [T] (\<lambda>idx. item (transpose_all data) (d # idx))
      = tabulate [T] (\<lambda>idx. item data [hd idx, d])" if "d < D" for d
  proof (rule tabulate_cong)
    fix idx assume "valid_index [T] idx"
    then obtain t where "idx = [t]" "t < T"
      by (auto elim!: valid_index_ConsE)
    with that assms show "item (transpose_all data) (d # idx) = item data [hd idx, d]"
      by (simp add: transpose_all_def)
  qed
  then show ?thesis
    using assms by (simp add: iter_def len_def transpose_all_def)
qed

lemma shape_hankel: "shape (hankel c r) = [length (elems c), length (elems r)]"
  by (simp add: hankel_def Let_def)

lemma item_hankel:
  assumes "shape c = [m]" "shape r = [n]" "a < length (elems c)" "b < length (elems r)"
  shows "item (hankel c r) [a, b] =
     (if a + b < length (elems c) then item c [a + b] else item r [a + b - length (elems c) + 1])"
  using assms by (simp add: hankel_def Let_def nth_append item_1d[of c m] item_1d[of r n])

lemma dstack_map:
  assumes "0 < D" "\<And>d. d < D \<Longrightarrow> shape (g d) = [m, n]"
  shows "dstack (map g [0..<D]) =
     Inr (tabulate [m, n, D] (\<lambda>idx. item (g (idx ! 2)) [idx ! 0, idx ! 1]))"
proof -
  have ne: "map g [0..<D] \<noteq> []" using assms(1) by simp
  have hd: "hd (map g [0..<D]) = g 0" using assms(1) by (simp add: hd_map upt_conv_Cons)
  have all: "list_all (\<lambda>x. shape x = shape (hd (map g [0..<D]))) (map g [0..<D])"
    using assms by (simp add: hd list_all_iff)
  have "tabulate [m, n, D] (\<lambda>idx. item (map g [0..<D] ! (idx ! 2)) [idx ! 0, idx ! 1])
      = tabulate [m, n, D] (\<lambda>idx. item (g (idx ! 2)) [idx ! 0, idx ! 1])"
    by (rule tabulate_cong) (auto elim!: valid_index_ConsE)
  then show ?thesis
    using ne all assms by (simp add: dstack_def hd)
qed

lemma u_hankel_matrix_2d:
  fixes data :: "'a ndarray" and q :: int and p0 :: "int option"
  assumes sh: "shape data = [T, D]" and D: "0 < D"
  defines "p \<equiv> (if p0 = None \<or> p0 = Some 0 then int T - q else the p0)"
  defines "sc \<equiv> slice_bound T 0 (Some (- (p + q)))"
  defines "lc \<equiv> slice_bound T T (Some (- p)) - sc"
  defines "sr \<equiv> slice_bound T 0 (Some (- p - 1))"
  defines "lr \<equiv> T - sr"
  shows "\<exists>H. u_hankel_matrix data q p0 = Inr H \<and> well_formed H \<and> shape H = [lr - 1, lc, D]
      \<and> (\<forall>i j d. i < lr - 1 \<longrightarrow> j < lc \<longrightarrow> d < D \<longrightarrow>
           item H [i, j, d] = (if i + j < lc then item data [sc + (i + j), d]
                               else item data [sr + (i + j - lc + 1), d]))"
proof -
  define chan where "chan d = tabulate [T] (\<lambda>idx. item data [hd idx, d])" for d
  define c where "c d = slice0 (chan d) (Some (- (p + q))) (Some (- p))" for d
  define r where "r d = slice0 (chan d) (Some (- p - 1)) None" for d
  define out where "out = tabulate [lc, lr, D] (\<lambda>idx. item (hankel (c (idx ! 2)) (r (idx ! 2))) [idx ! 0, idx ! 1])"
  define H where "H = slice0 (transpose_102 out) None (Some (- 1))"
  have len_chan: "len (chan d) = T" for d by (simp add: chan_def len_def)
  have shc: "shape (c d) = [lc]" for d
    by (simp add: c_def shape_slice0 len_chan lc_def sc_def) (simp add: chan_def)
  have shr: "shape (r d) = [lr]" for d
    by (simp add: r_def shape_slice0 len_chan lr_def sr_def) (simp add: chan_def slice_bound_def)
  have lenc: "length (elems (c d)) = lc" for d
    using well_formed_slice0[of "chan d"] shc[of d] by (simp add: well_formed_def c_def)
  have lenr: "length (elems (r d)) = lr" for d
    using well_formed_slice0[of "chan d"] shr[of d] by (simp add: well_formed_def r_def)
  have e_le: "slice_bound T T (Some (- p)) \<le> T" by (simp add: slice_bound_le)
  have sr_le: "sr \<le> T" unfolding sr_def by (auto simp: slice_bound_def)
  have itc: "item (c d) [k] = item data [sc + k, d]" if "k < lc" "d < D" for k d
  proof -
    have "sc + k < T" using that e_le by (simp add: lc_def)
    moreover have "item (c d) [k] = item (chan d) [sc + k]"
      unfolding c_def sc_def using that
      by (subst item_slice0) (simp_all add: len_chan lc_def sc_def, simp add: chan_def)
    ultimately show ?thesis by (simp add: chan_def)
  qed
  have itr: "item (r d) [k] = item data [sr + k, d]" if "k < lr" "d < D" for k d
  proof -
    have T: "slice_bound T T None = T" by (simp add: slice_bound_def)
    have "sr + k < T" using that by (simp add: lr_def)
    moreover have "item (r d) [k] = item (chan d) [sr + k]"
      unfolding r_def sr_def using that T
      by (subst item_slice0) (simp_all add: len_chan lr_def sr_def, simp add: chan_def)
    ultimately show ?thesis by (simp add: chan_def)
  qed
  have rows: "iter (transpose_all data) = map chan [0..<D]"
    using iter_transpose_all[OF sh] by (simp add: chan_def)
  have ds: "dstack (map (\<lambda>d. hankel (c d) (r d)) [0..<D]) = Inr out"
    unfolding out_def by (rule dstack_map[OF D]) (simp add: shape_hankel lenc lenr)
  have ne: "(shape data = []) = False" by (simp add: sh)
  have d1: "(if length (shape data) = 1 then add_axis1 data else data) = data"
    by (simp add: sh)
  have pe: "(if p0 = None \<or> p0 = Some 0 then int (len data) - q else the p0) = p"
    by (simp add: p_def len_def sh)
  have "u_hankel_matrix data q p0 =
      (case dstack (map (\<lambda>d. hankel (c d) (r d)) [0..<D]) of
         Inl e \<Rightarrow> Inl e
       | Inr out \<Rightarrow> Inr (slice0 (transpose_102 out) None (Some (- 1))))"
    unfolding u_hankel_matrix_def Let_def c_def r_def
    by (simp only: ne d1 pe rows list.map_comp o_def if_False)
  then have run: "u_hankel_matrix data q p0 = Inr H"
    by (simp add: ds H_def)
  have sh_out: "shape out = [lc, lr, D]"
    by (simp add: out_def)
  have sh_tr: "shape (transpose_102 out) = [lr, lc, D]"
    by (simp add: transpose_102_def sh_out)
  have shH: "shape H = [lr - 1, lc, D]"
    by (simp add: H_def shape_slice0 sh_tr len_def slice_bound_def) 
  have itH: "item H [i, j, d] = (if i + j < lc then item data [sc + (i + j), d]
                               else item data [sr + (i + j - lc + 1), d])"
    if "i < lr - 1" "j < lc" "d < D" for i j d
  proof -
    have "item H [i, j, d] = item (transpose_102 out) [i, j, d]"
      using that by (simp add: H_def item_slice0 sh_tr len_def slice_bound_def)
    also have "\<dots> = item out [j, i, d]"
      using that by (simp add: transpose_102_def sh_out) simp
    also have "\<dots> = item (hankel (c d) (r d)) [j, i]"
      using that by (simp add: out_def) simp
    also have "\<dots> = (if j + i < lc then item (c d) [j + i] else item (r d) [j + i - lc + 1])"
      using that item_hankel[OF shc shr, of j d i d] by (simp add: lenc lenr)
    also have "\<dots> = (if i + j < lc then item data [sc + (i + j), d]
                               else item data [sr + (i + j - lc + 1), d])"
      using that by (auto simp: itc itr add.commute)
    finally show ?thesis .
  qed
  have "well_formed H" by (simp add: H_def)
  with run shH itH show ?thesis by blast
qed

section \<open>Properties of the Hankel construction\<close>

lemma u_hankel_matrix_valid:
  fixes data :: "'a ndarray"
  assumes sh: "shape data = [T, D]" and D: "0 < D" and q: "0 < q" and p: "0 < p"
    and T: "p + q \<le> T"
  shows "\<exists>H. u_hankel_matrix data (int q) (Some (int p)) = Inr H \<and> well_formed H
      \<and> shape H = [p, q, D]
      \<and> (\<forall>i j d. i < p \<longrightarrow> j < q \<longrightarrow> d < D \<longrightarrow>
            item H [i, j, d] = item data [T - p - q + i + j, d])"
proof -
  have sc: "slice_bound T 0 (Some (- (int p + int q))) = T - p - q"
    using slice_bound_neg[of "p + q" T 0] p T by simp
  have e: "slice_bound T T (Some (- int p)) = T - p"
    using slice_bound_neg[of p T T] p T by simp
  have sr: "slice_bound T 0 (Some (- int p - 1)) = T - p - 1"
    using q T by (auto simp: slice_bound_def)
  have lc: "T - p - (T - p - q) = q" using T by simp
  have lr: "T - (T - p - 1) - 1 = p" using T q by simp
  have pp: "(if Some (int p) = None \<or> Some (int p) = Some 0 then int T - int q
      else the (Some (int p))) = int p"
    using p by simp
  from u_hankel_matrix_2d[OF sh D, where ?p0.0 = "Some (int p)" and q = "int q",
      unfolded pp sc e sr lc lr]
  obtain H where H: "u_hankel_matrix data (int q) (Some (int p)) = Inr H" "well_formed H"
      "shape H = [p, q, D]"
    and it: "\<And>i j d. i < p \<Longrightarrow> j < q \<Longrightarrow> d < D \<Longrightarrow>
       item H [i, j, d] = (if i + j < q then item data [T - p - q + (i + j), d]
                           else item data [T - p - 1 + (i + j - q + 1), d])"
    by blast
  have "item H [i, j, d] = item data [T - p - q + i + j, d]" if "i < p" "j < q" "d < D" for i j d
  proof -
    have "T - p - 1 + (i + j - q + 1) = T - p - q + i + j" if "\<not> i + j < q"
      using that T q by simp
    then show ?thesis using it[OF that] by (simp add: add.assoc)
  qed
  with H show ?thesis by blast
qed

lemma hankel_matrix_2d: "length (shape data) = 2 \<Longrightarrow> hankel_matrix data q p = u_hankel_matrix data q p"
  by (simp add: hankel_matrix_def)

lemma collect_map:
  "(\<And>x. x \<in> set xs \<Longrightarrow> f x = Inr (g x)) \<Longrightarrow> collect (map f xs) = Inr (map g xs)"
  by (induction xs) simp_all

lemma length_iter [simp]: "length (iter a) = len a"
  by (simp add: iter_def)

lemma nth_iter: "i < len a \<Longrightarrow> iter a ! i = tabulate (tl (shape a)) (\<lambda>idx. item a (i # idx))"
  by (simp add: iter_def)

lemma shape_nth_iter: "i < len a \<Longrightarrow> shape (iter a ! i) = tl (shape a)"
  by (simp add: nth_iter)

lemma hankel_matrix_batch:
  fixes data :: "'a ndarray"
  assumes sh: "shape data = [N, T, D]" and N: "0 < N"
    and each: "\<And>i. i < N \<Longrightarrow>
      \<exists>H. u_hankel_matrix (iter data ! i) q p0 = Inr H \<and> well_formed H \<and> shape H = s"
  shows "\<exists>out. hankel_matrix data q p0 = Inr out \<and> shape out = N # s
      \<and> (\<forall>i<N. u_hankel_matrix (iter data ! i) q p0 = Inr (iter out ! i))"
proof -
  define g where "g x = projr (u_hankel_matrix x q p0)" for x :: "'a ndarray"
  define hs where "hs = map g (iter data)"
  define out where "out = tabulate (N # s) (\<lambda>idx. item (hs ! hd idx) (tl idx))"
  have len: "len data = N" by (simp add: len_def sh)
  have gi: "u_hankel_matrix (iter data ! i) q p0 = Inr (g (iter data ! i))
      \<and> well_formed (g (iter data ! i)) \<and> shape (g (iter data ! i)) = s" if "i < N" for i
    using each[OF that] by (auto simp: g_def)
  have "u_hankel_matrix x q p0 = Inr (g x)" if "x \<in> set (iter data)" for x
    using that gi by (auto simp: in_set_conv_nth len)
  then have col: "collect (map (\<lambda>x. u_hankel_matrix x q p0) (iter data)) = Inr hs"
    unfolding hs_def by (rule collect_map)
  have lhs: "length hs = N" by (simp add: hs_def len)
  have hsi: "hs ! i = g (iter data ! i)" if "i < N" for i
    using that by (simp add: hs_def len)
  have shs: "shape (hs ! i) = s" "well_formed (hs ! i)" if "i < N" for i
    using that gi by (simp_all add: hsi)
  have ne: "hs \<noteq> []" using lhs N by auto
  have hd: "hd hs = hs ! 0" using ne by (simp add: hd_conv_nth)
  have all: "list_all (\<lambda>m. shape m = shape (hd hs)) hs"
    using shs N by (auto simp: list_all_length lhs hd)
  have st: "np_stack hs = Inr out"
    using ne all shs(1)[OF N] by (simp add: np_stack_def out_def lhs hd)
  have run: "hankel_matrix data q p0 = Inr out"
    by (simp add: hankel_matrix_def sh col st)
  have "iter out ! i = hs ! i" if "i < N" for i
  proof -
    have "iter out ! i = tabulate s (\<lambda>idx. item out (i # idx))"
      using that by (simp add: nth_iter len_def out_def)
    also have "\<dots> = tabulate s (item (hs ! i))"
      using that by (intro tabulate_cong) (simp add: out_def)
    also have "\<dots> = hs ! i"
      using tabulate_item[of "hs ! i"] shs[OF that] by simp
    finally show ?thesis .
  qed
  then have "\<forall>i<N. u_hankel_matrix (iter data ! i) q p0 = Inr (iter out ! i)"
    using gi hsi by simp
  moreover have "shape out = N # s" by (simp add: out_def)
  ultimately show ?thesis using run by blast
qed

lemma u_hankel_matrix_no_channel:
  assumes "shape data = [T, 0]"
  shows "u_hankel_matrix data q p = Inl ValueError"
proof -
  have "iter (transpose_all data) = []"
    using assms by (simp add: iter_def transpose_all_def len_def)
  then show ?thesis using assms by (simp add: u_hankel_matrix_def Let_def dstack_def)
qed

lemma collect_fails:
  "x \<in> set xs \<Longrightarrow> f x = Inl e \<Longrightarrow> \<exists>e'. collect (map f xs) = Inl e'"
  by (induction xs) (auto split: sum.splits)

lemma collect_Inl: "collect (map f xs) = Inl e \<Longrightarrow> \<exists>x\<in>set xs. f x = Inl e"
  by (induction xs) (auto split: sum.splits)

lemma u_hankel_matrix_error:
  "u_hankel_matrix data q p = Inl e \<Longrightarrow> e = ValueError \<or> e = TypeError"
  by (auto simp: u_hankel_matrix_def Let_def dstack_def split: if_splits sum.splits)

lemma hankel_matrix_error:
  "hankel_matrix data q p = Inl e \<Longrightarrow> e = ValueError \<or> e = TypeError"
  by (auto simp: hankel_matrix_def np_stack_def split: if_splits sum.splits
      dest!: collect_Inl u_hankel_matrix_error)

section \<open>The Hankel construction on a one-dimensional series\<close>

lemma upt_2: "[0..<2] = [0, 1]" by code_simp

lemma upt_6: "[0..<6] = [0, 1, 2, 3, 4, 5]" by code_simp

lemma tabulate_rows_1_1:
  "tabulate [n, 1, 1] f = NDArray [n, 1, 1] (map (\<lambda>i. f [i, 0, 0]) [0..<n])"
  by (simp add: tabulate_def o_def)

lemma rows_1_1:
  assumes "well_formed H" and "shape H = [n, 1, 1]"
  shows "H = NDArray [n, 1, 1] (map (\<lambda>i. item H [i, 0, 0]) [0..<n])"
  using tabulate_item[OF assms(1)] tabulate_rows_1_1[of n "item H"] assms(2) by simp

lemma hankel_matrix_1d_rows:
  fixes xs :: "'a list"
  assumes "length xs = T" and "0 < p" and "p + 1 \<le> T"
  shows "hankel_matrix (NDArray [T] xs) 1 (Some (int p))
       = Inr (NDArray [p, 1, 1] (map (\<lambda>i. xs ! (T - p - 1 + i)) [0..<p]))"
proof -
  let ?d = "NDArray [T] xs"
  have sh: "shape (add_axis1 ?d) = [T, 1]" by (simp add: add_axis1_def len_def)
  from u_hankel_matrix_valid[OF sh, of 1 p] assms
  obtain H where H: "u_hankel_matrix (add_axis1 ?d) 1 (Some (int p)) = Inr H" "well_formed H"
    "shape H = [p, 1, 1]"
    and it: "\<And>i j d. i < p \<Longrightarrow> j < 1 \<Longrightarrow> d < 1 \<Longrightarrow>
        item H [i, j, d] = item (add_axis1 ?d) [T - p - 1 + i + j, d]"
    by auto
  have "item H [i, 0, 0] = xs ! (T - p - 1 + i)" if "i < p" for i
  proof -
    have "T - p - 1 + i < T" using that assms by simp
    then have "item (add_axis1 ?d) [T - p - 1 + i, 0] = xs ! (T - p - 1 + i)"
      by (simp add: add_axis1_def len_def item_1d[of ?d T])
    then show ?thesis using it[OF that, of 0 0] by simp
  qed
  then have "map (\<lambda>i. item H [i, 0, 0]) [0..<p] = map (\<lambda>i. xs ! (T - p - 1 + i)) [0..<p]"
    by simp
  with rows_1_1[OF H(2,3)] have "H = NDArray [p, 1, 1] (map (\<lambda>i. xs ! (T - p - 1 + i)) [0..<p])"
    by simp
  with H(1) show ?thesis by (simp add: hankel_matrix_def)
qed

lemma slice0_1d_take:
  fixes xs :: "'a list"
  assumes "length xs = T" and "k \<le> T"
  shows "slice0 (NDArray [T] xs) None (Some (int k)) = NDArray [k] (take k xs)"
proof -
  have b: "slice_bound T T (Some (int k)) = k" using assms by (simp add: slice_bound_def)
  have "map (\<lambda>i. xs ! i) [0..<k] = take k xs"
    using assms by (intro nth_equalityI) simp_all
  moreover have "min k T = k" using assms by simp
  ultimately show ?thesis
    by (simp add: slice0_def len_def slice_bound_def tabulate_def indices_single item_def o_def
        Let_def del: indices.simps)
qed

lemma hankel_matrix_default_rows:
  assumes "shape data = [T]" and "int T - q \<noteq> 0"
  shows "hankel_matrix data q None = hankel_matrix data q (Some (int T - q))"
  using assms by (simp add: hankel_matrix_def u_hankel_matrix_def Let_def add_axis1_def len_def)

lemma sqrt_quarter: "sqrt (1 / 4) = 1 / 2"
  by (simp add: real_sqrt_divide)

section \<open>Claims about the Hankel construction\<close>

text \<open>
  Claim C1, as the code has it. For a series of shape \<open>(T, D)\<close> and \<open>q \<ge> 1\<close>, \<open>p \<ge> 1\<close> with
  \<open>T \<ge> p + q\<close>, \<^verbatim>\<open>hankel_matrix\<close> returns an array \<open>H\<close> with
  \<open>H[i, j, d] = series[T - p - q + i + j, d]\<close> for every row \<open>i < p\<close>, column \<open>j < q\<close> and
  channel \<open>d < D\<close>: the offset is \<open>T - p - q\<close>, without the \<open>+ 1\<close> of the specification,
  because the row that is dropped is the last one. The rows are the successive windows of
  length \<open>q\<close> that start at \<open>T - p - q\<close>; the last sample of the series is in none of them.
\<close>

theorem hankel_matrix_entry:
  fixes series :: "'a ndarray"
  assumes "shape series = [T, D]" and "1 \<le> q" and "1 \<le> p" and "p + q \<le> T"
    and "i < p" and "j < q" and "d < D"
  shows "\<exists>H. hankel_matrix series (int q) (Some (int p)) = Inr H
           \<and> item H [i, j, d] = item series [T - p - q + i + j, d]"
proof -
  have "0 < D" using assms(7) by simp
  with u_hankel_matrix_valid[of series T D q p] assms
  obtain H where "u_hankel_matrix series (int q) (Some (int p)) = Inr H"
    and "item H [i, j, d] = item series [T - p - q + i + j, d]"
    by auto
  then show ?thesis using assms(1) by (auto simp: hankel_matrix_2d)
qed

text \<open>
  The entry formula of C1 at a series of five samples and two channels.
\<close>

theorem hankel_matrix_entry_witness:
  "shape (NDArray [5, 2] [0, 10, 1, 11, 2, 12, 3, 13, 4, 14 :: int]) = [5, 2]
   \<and> (1::nat) \<le> 2 \<and> (1::nat) \<le> 2 \<and> (2::nat) + 2 \<le> 5 \<and> (1::nat) < 2 \<and> (0::nat) < 2 \<and> (1::nat) < 2
   \<and> (\<exists>H. hankel_matrix (NDArray [5, 2] [0, 10, 1, 11, 2, 12, 3, 13, 4, 14 :: int]) 2 (Some 2) = Inr H
          \<and> item H [1, 0, 1] = 12)"
  using hankel_matrix_entry[of "NDArray [5, 2] [0, 10, 1, 11, 2, 12, 3, 13, 4, 14 :: int]" 5 2 2 2 1 0 1]
  by (simp add: item_def)

text \<open>
  Claim C1 as the specification states it fails. For the series \<open>0, 1, 2\<close> with \<open>q = p = 1\<close>
  the single entry of the result is \<open>1\<close>, while the specification's index
  \<open>T - p - q + 1 + i + j = 2\<close> holds the value \<open>2\<close>.
\<close>

theorem hankel_matrix_entry_spec_counterexample:
  "hankel_matrix (NDArray [3, 1] [0, 1, 2 :: int]) 1 (Some 1) = Inr (NDArray [1, 1, 1] [1])
   \<and> item (NDArray [1, 1, 1] [1 :: int]) [0, 0, 0] = 1
   \<and> item (NDArray [3, 1] [0, 1, 2 :: int]) [3 - 1 - 1 + 1 + 0 + 0, 0] = 2"
  by code_simp

text \<open>
  Claim C4. For \<open>q \<ge> 1\<close>, \<open>p \<ge> 1\<close> and \<open>T \<ge> p + q\<close>, \<^verbatim>\<open>hankel_matrix\<close> returns an array of
  shape \<open>(p, q, D)\<close> for a series of shape \<open>(T, D)\<close> and an array of shape \<open>(N, p, q, D)\<close>
  for a batch of shape \<open>(N, T, D)\<close>. A series has at least one channel and a batch at least
  one series: numpy raises \<^verbatim>\<open>ValueError\<close> when it is asked to stack an empty list.
\<close>

theorem hankel_matrix_shape:
  fixes series batch :: "'a ndarray"
  assumes "shape series = [T, D]" and "shape batch = [N, T, D]"
    and "1 \<le> q" and "1 \<le> p" and "p + q \<le> T" and "1 \<le> D" and "1 \<le> N"
  shows "(\<exists>H. hankel_matrix series (int q) (Some (int p)) = Inr H \<and> shape H = [p, q, D])
       \<and> (\<exists>B. hankel_matrix batch (int q) (Some (int p)) = Inr B \<and> shape B = [N, p, q, D])"
proof
  from u_hankel_matrix_valid[of series T D q p] assms
  obtain H where "u_hankel_matrix series (int q) (Some (int p)) = Inr H" "shape H = [p, q, D]"
    by auto
  then show "\<exists>H. hankel_matrix series (int q) (Some (int p)) = Inr H \<and> shape H = [p, q, D]"
    using assms(1) by (auto simp: hankel_matrix_2d)
next
  have "\<exists>H. u_hankel_matrix (iter batch ! i) (int q) (Some (int p)) = Inr H \<and> well_formed H
      \<and> shape H = [p, q, D]" if "i < N" for i
  proof -
    have "shape (iter batch ! i) = [T, D]"
      using that assms(2) by (simp add: shape_nth_iter len_def)
    from u_hankel_matrix_valid[OF this, of q p] assms show ?thesis by auto
  qed
  from hankel_matrix_batch[OF assms(2) _ this] assms(7)
  show "\<exists>B. hankel_matrix batch (int q) (Some (int p)) = Inr B \<and> shape B = [N, p, q, D]"
    by auto
qed

text \<open>
  The shapes of C4 for a series of three samples and a batch of two such series.
\<close>

theorem hankel_matrix_shape_witness:
  "shape (NDArray [3, 1] [0, 1, 2 :: int]) = [3, 1]
   \<and> shape (NDArray [2, 3, 1] [0, 1, 2, 3, 4, 5 :: int]) = [2, 3, 1]
   \<and> (1::nat) \<le> 1 \<and> (1::nat) \<le> 2 \<and> (2::nat) + 1 \<le> 3 \<and> (1::nat) \<le> 1 \<and> (1::nat) \<le> 2
   \<and> (\<exists>H. hankel_matrix (NDArray [3, 1] [0, 1, 2 :: int]) 1 (Some 2) = Inr H \<and> shape H = [2, 1, 1])
   \<and> (\<exists>B. hankel_matrix (NDArray [2, 3, 1] [0, 1, 2, 3, 4, 5 :: int]) 1 (Some 2) = Inr B
          \<and> shape B = [2, 2, 1, 1])"
  using hankel_matrix_shape[of "NDArray [3, 1] [0, 1, 2 :: int]" 3 1
      "NDArray [2, 3, 1] [0, 1, 2, 3, 4, 5 :: int]" 2 1 2]
  by simp



text \<open>
  Claim C6. For every batch of shape \<open>(N, T, D)\<close> and every \<open>q\<close> and \<open>p\<close>: whenever
  \<^verbatim>\<open>hankel_matrix\<close> returns an array, its first axis has size \<open>N\<close> and its slice at every
  position \<open>i\<close> is the result of \<^verbatim>\<open>hankel_matrix\<close> on series \<open>i\<close> alone; and it does return an
  array when the batch has at least one series and one channel (numpy raises
  \<^verbatim>\<open>ValueError\<close> otherwise, for an empty list to stack).
\<close>

theorem hankel_matrix_batch_slices:
  fixes batch :: "'a ndarray"
  assumes "shape batch = [N, T, D]"
  shows "(1 \<le> N \<and> 1 \<le> D \<longrightarrow> (\<exists>out. hankel_matrix batch q p = Inr out))
       \<and> (\<forall>out. hankel_matrix batch q p = Inr out \<longrightarrow>
             len out = N \<and> (\<forall>i<N. hankel_matrix (iter batch ! i) q p = Inr (iter out ! i)))"
proof -
  have shi: "shape (iter batch ! i) = [T, D]" if "i < N" for i
    using that assms by (simp add: shape_nth_iter len_def)
  have good: "\<exists>out. hankel_matrix batch q p = Inr out \<and> len out = N
           \<and> (\<forall>i<N. hankel_matrix (iter batch ! i) q p = Inr (iter out ! i))"
    if N1: "1 \<le> N" and D1: "1 \<le> D"
  proof -
    obtain s where each: "\<And>i. i < N \<Longrightarrow>
        \<exists>H. u_hankel_matrix (iter batch ! i) q p = Inr H \<and> well_formed H \<and> shape H = s"
      using u_hankel_matrix_2d[OF shi, where ?p0.0 = p and q = q] D1
      by (metis less_eq_Suc_le One_nat_def)
    from hankel_matrix_batch[OF assms _ each] N1
    obtain out where "hankel_matrix batch q p = Inr out" "shape out = N # s"
      and "\<forall>i<N. u_hankel_matrix (iter batch ! i) q p = Inr (iter out ! i)"
      by auto
    then show ?thesis using shi by (auto simp: hankel_matrix_2d len_def)
  qed
  have bad: "\<exists>e. hankel_matrix batch q p = Inl e" if "\<not> (1 \<le> N \<and> 1 \<le> D)"
  proof (cases "N = 0")
    case True
    then have "iter batch = []" using assms by (simp add: iter_def len_def)
    then show ?thesis using assms by (simp add: hankel_matrix_def np_stack_def)
  next
    case False
    then have D: "D = 0" and N: "0 < N" using that by auto
    have mem: "iter batch ! 0 \<in> set (iter batch)"
      using N assms by (simp add: len_def)
    have "u_hankel_matrix (iter batch ! 0) q p = Inl ValueError"
      using shi[OF N] D by (simp add: u_hankel_matrix_no_channel)
    from collect_fails[of "iter batch ! 0" "iter batch" "\<lambda>x. u_hankel_matrix x q p", OF mem this]
    obtain e where "collect (map (\<lambda>x. u_hankel_matrix x q p) (iter batch)) = Inl e" ..
    then show ?thesis using assms by (simp add: hankel_matrix_def)
  qed
  show ?thesis
  proof (cases "1 \<le> N \<and> 1 \<le> D")
    case True
    then show ?thesis using good by auto
  next
    case False
    then show ?thesis using bad by auto
  qed
qed

text \<open>
  Both slices of the result for a batch of two series.
\<close>

theorem hankel_matrix_batch_slices_witness:
  "shape (NDArray [2, 3, 1] [0, 1, 2, 3, 4, 5 :: int]) = [2, 3, 1] \<and> (1::nat) \<le> 2 \<and> (1::nat) \<le> 1
   \<and> hankel_matrix (NDArray [2, 3, 1] [0, 1, 2, 3, 4, 5 :: int]) 1 (Some 1)
       = Inr (NDArray [2, 1, 1, 1] [1, 4])
   \<and> len (NDArray [2, 1, 1, 1] [1, 4 :: int]) = 2
   \<and> hankel_matrix (iter (NDArray [2, 3, 1] [0, 1, 2, 3, 4, 5 :: int]) ! 0) 1 (Some 1)
       = Inr (iter (NDArray [2, 1, 1, 1] [1, 4]) ! 0)
   \<and> hankel_matrix (iter (NDArray [2, 3, 1] [0, 1, 2, 3, 4, 5 :: int]) ! 1) 1 (Some 1)
       = Inr (iter (NDArray [2, 1, 1, 1] [1, 4]) ! 1)"
proof -
  have run: "hankel_matrix (NDArray [2, 3, 1] [0, 1, 2, 3, 4, 5 :: int]) 1 (Some 1)
       = Inr (NDArray [2, 1, 1, 1] [1, 4])"
    by code_simp
  show ?thesis
    using hankel_matrix_batch_slices[of "NDArray [2, 3, 1] [0, 1, 2, 3, 4, 5 :: int]" 2 3 1 1 "Some 1"]
      run
    by (simp add: len_def)
qed

section \<open>Claims about the train and test partitions\<close>

text \<open>
  Claim C2, at a dataset on which the code departs from it, for every arithmetic. Take any
  nine samples \<open>x0, \<dots>, x8\<close>, \<^verbatim>\<open>sample_size = 2\<close>, \<^verbatim>\<open>time_window = 1\<close> and a \<^verbatim>\<open>split\<close> for
  which \<^verbatim>\<open>n_split\<close> is \<open>6\<close> (as it is for \<^verbatim>\<open>split = 0.75\<close>, where
  \<open>(0.75/0.25) * 2 = 6.0\<close> exactly). The length check passes. The test matrix that
  \<^verbatim>\<open>train_test\<close> returns has two rows (\<^verbatim>\<open>p = sample_size\<close>): it is the rescaled Hankel matrix
  of the samples \<open>x4, x5\<close>. The Hankel matrix of the first \<open>n_split + time_window = 7\<close> samples
  with the default number of rows has \<open>n_split = 6\<close> rows, the samples \<open>x0, \<dots>, x5\<close>.
\<close>

theorem train_test_test_matrix_rows:
  fixes ops :: "'f float_ops" and x0 x1 x2 x3 x4 x5 x6 x7 x8 std split :: 'f
  defines "dataset \<equiv> NDArray [9] [x0, x1, x2, x3, x4, x5, x6, x7, x8]"
  defines "rescale \<equiv> map_array (\<lambda>x. f_div ops (f_sub ops x (np_mean ops (NDArray [2, 1, 1] [x6, x7])))
                                        (f_mul ops std (np_std ops (NDArray [2, 1, 1] [x6, x7]))))"
  assumes "n_split ops split 2 = Inr 6"
  shows "train_test ops dataset 2 1 std split
           = Inr (rescale (NDArray [2, 1, 1] [x6, x7]), rescale (NDArray [2, 1, 1] [x4, x5]))
         \<and> hankel_matrix (slice0 dataset None (Some (6 + 1))) 1 None
           = Inr (NDArray [6, 1, 1] [x0, x1, x2, x3, x4, x5])"
proof -
  have train: "hankel_matrix dataset 1 (Some 2) = Inr (NDArray [2, 1, 1] [x6, x7])"
    using hankel_matrix_1d_rows[of "[x0, x1, x2, x3, x4, x5, x6, x7, x8]" 9 2]
    by (simp add: dataset_def upt_2)
  have sl: "slice0 dataset None (Some 7) = NDArray [7] [x0, x1, x2, x3, x4, x5, x6]"
    using slice0_1d_take[of "[x0, x1, x2, x3, x4, x5, x6, x7, x8]" 9 7]
    by (simp add: dataset_def)
  have test: "hankel_matrix (NDArray [7] [x0, x1, x2, x3, x4, x5, x6]) 1 (Some 2)
      = Inr (NDArray [2, 1, 1] [x4, x5])"
    using hankel_matrix_1d_rows[of "[x0, x1, x2, x3, x4, x5, x6]" 7 2]
    by (simp add: upt_2)
  have dflt: "hankel_matrix (NDArray [7] [x0, x1, x2, x3, x4, x5, x6]) 1 None
      = Inr (NDArray [6, 1, 1] [x0, x1, x2, x3, x4, x5])"
    using hankel_matrix_default_rows[of "NDArray [7] [x0, x1, x2, x3, x4, x5, x6]" 7 1]
      hankel_matrix_1d_rows[of "[x0, x1, x2, x3, x4, x5, x6]" 7 6]
    by (simp add: upt_6)
  show ?thesis
    using assms(3) by (simp add: train_test_def dataset_def[symmetric] Let_def train sl test dflt
        rescale_def) (simp add: dataset_def len_def)
qed

text \<open>
  C2 at the samples \<open>0, \<dots>, 8\<close> with \<^verbatim>\<open>std = 1\<close> and \<^verbatim>\<open>split = 0.75\<close>, in an arithmetic that
  computes without rounding. Every number of this computation (\<open>0.25\<close>, \<open>3\<close>, \<open>6\<close>, the mean
  \<open>6.5\<close>, the deviations \<open>\<plusminus>0.5\<close>, the standard deviation \<open>0.5\<close> and the four quotients) is a
  double, so the doubles of the machine give the same values: the returned test matrix is
  \<open>-5, -3\<close>.
\<close>

theorem train_test_test_matrix_rows_witness:
  "n_split 
     \<lparr>f_of_int = (\<lambda>i. Inr (real_of_int i)),
      f_sub = (\<lambda>x y. x - y), f_mul = (\<lambda>x y. x * y), f_div = (\<lambda>x y. x / y),
      f_is_zero = (\<lambda>x. x = 0),
      f_int = (\<lambda>x. Inr (if x < 0 then \<lceil>x\<rceil> else \<lfloor>x\<rfloor>)),
      np_mean = (\<lambda>a. sum_list (elems a) / real (length (elems a))),
      np_std = (\<lambda>a. sqrt (sum_list (map (\<lambda>x. (x - sum_list (elems a) / real (length (elems a)))\<^sup>2)
                                      (elems a)) / real (length (elems a))))\<rparr>
     (3 / 4) 2 = Inr 6
   \<and> train_test 
     \<lparr>f_of_int = (\<lambda>i. Inr (real_of_int i)),
      f_sub = (\<lambda>x y. x - y), f_mul = (\<lambda>x y. x * y), f_div = (\<lambda>x y. x / y),
      f_is_zero = (\<lambda>x. x = 0),
      f_int = (\<lambda>x. Inr (if x < 0 then \<lceil>x\<rceil> else \<lfloor>x\<rfloor>)),
      np_mean = (\<lambda>a. sum_list (elems a) / real (length (elems a))),
      np_std = (\<lambda>a. sqrt (sum_list (map (\<lambda>x. (x - sum_list (elems a) / real (length (elems a)))\<^sup>2)
                                      (elems a)) / real (length (elems a))))\<rparr>
     (NDArray [9] [0, 1, 2, 3, 4, 5, 6, 7, 8]) 2 1 1 (3 / 4)
       = Inr (NDArray [2, 1, 1] [- 1, 1], NDArray [2, 1, 1] [- 5, - 3])
   \<and> hankel_matrix (slice0 (NDArray [9] [0, 1, 2, 3, 4, 5, 6, 7, 8 :: real]) None (Some (6 + 1))) 1 None
       = Inr (NDArray [6, 1, 1] [0, 1, 2, 3, 4, 5])"
proof -
  have n: "n_split 
     \<lparr>f_of_int = (\<lambda>i. Inr (real_of_int i)),
      f_sub = (\<lambda>x y. x - y), f_mul = (\<lambda>x y. x * y), f_div = (\<lambda>x y. x / y),
      f_is_zero = (\<lambda>x. x = 0),
      f_int = (\<lambda>x. Inr (if x < 0 then \<lceil>x\<rceil> else \<lfloor>x\<rfloor>)),
      np_mean = (\<lambda>a. sum_list (elems a) / real (length (elems a))),
      np_std = (\<lambda>a. sqrt (sum_list (map (\<lambda>x. (x - sum_list (elems a) / real (length (elems a)))\<^sup>2)
                                      (elems a)) / real (length (elems a))))\<rparr>
     (3 / 4) 2 = Inr 6"
    by (simp add: n_split_def)
  show ?thesis
    using train_test_test_matrix_rows[OF n, of 0 1 2 3 4 5 6 7 8 1] n
    by (simp add: map_array_def sqrt_quarter)
qed

text \<open>
  Claim C7. Once \<^verbatim>\<open>n_split\<close> has been computed, \<^verbatim>\<open>train_test\<close> fails with the assertion error
  "Not enough data to make complete split" exactly when
  \<open>len(dataset) \<le> sample_size + n_split\<close>; for a longer dataset the check passes and that error
  is not raised by anything after it. This holds for every arithmetic.
\<close>

theorem train_test_assertion:
  assumes "shape dataset \<noteq> []" and "n_split ops split sample_size = Inr k"
  shows "train_test ops dataset sample_size time_window std split
           = Inl (AssertionError ''Not enough data to make complete split'')
         \<longleftrightarrow> int (len dataset) \<le> sample_size + k"
  using assms
  by (auto simp: train_test_def Let_def split: sum.splits dest: hankel_matrix_error)

text \<open>
  The assertion of C7 for three samples with \<^verbatim>\<open>sample_size = 2\<close> and \<^verbatim>\<open>split = 0.5\<close>, where
  \<open>(0.5/0.5) * 2 = 2.0\<close> exactly.
\<close>

theorem train_test_assertion_witness:
  "shape (NDArray [3] [0, 1, 2 :: real]) \<noteq> []
   \<and> n_split 
     \<lparr>f_of_int = (\<lambda>i. Inr (real_of_int i)),
      f_sub = (\<lambda>x y. x - y), f_mul = (\<lambda>x y. x * y), f_div = (\<lambda>x y. x / y),
      f_is_zero = (\<lambda>x. x = 0),
      f_int = (\<lambda>x. Inr (if x < 0 then \<lceil>x\<rceil> else \<lfloor>x\<rfloor>)),
      np_mean = (\<lambda>a. sum_list (elems a) / real (length (elems a))),
      np_std = (\<lambda>a. sqrt (sum_list (map (\<lambda>x. (x - sum_list (elems a) / real (length (elems a)))\<^sup>2)
                                      (elems a)) / real (length (elems a))))\<rparr>
     (1 / 2) 2 = Inr 2
   \<and> train_test 
     \<lparr>f_of_int = (\<lambda>i. Inr (real_of_int i)),
      f_sub = (\<lambda>x y. x - y), f_mul = (\<lambda>x y. x * y), f_div = (\<lambda>x y. x / y),
      f_is_zero = (\<lambda>x. x = 0),
      f_int = (\<lambda>x. Inr (if x < 0 then \<lceil>x\<rceil> else \<lfloor>x\<rfloor>)),
      np_mean = (\<lambda>a. sum_list (elems a) / real (length (elems a))),
      np_std = (\<lambda>a. sqrt (sum_list (map (\<lambda>x. (x - sum_list (elems a) / real (length (elems a)))\<^sup>2)
                                      (elems a)) / real (length (elems a))))\<rparr>
     (NDArray [3] [0, 1, 2]) 2 1 1 (1 / 2)
        = Inl (AssertionError ''Not enough data to make complete split'')
   \<and> int (len (NDArray [3] [0, 1, 2 :: real])) \<le> 2 + 2"
proof -
  have n: "n_split 
     \<lparr>f_of_int = (\<lambda>i. Inr (real_of_int i)),
      f_sub = (\<lambda>x y. x - y), f_mul = (\<lambda>x y. x * y), f_div = (\<lambda>x y. x / y),
      f_is_zero = (\<lambda>x. x = 0),
      f_int = (\<lambda>x. Inr (if x < 0 then \<lceil>x\<rceil> else \<lfloor>x\<rfloor>)),
      np_mean = (\<lambda>a. sum_list (elems a) / real (length (elems a))),
      np_std = (\<lambda>a. sqrt (sum_list (map (\<lambda>x. (x - sum_list (elems a) / real (length (elems a)))\<^sup>2)
                                      (elems a)) / real (length (elems a))))\<rparr>
     (1 / 2) 2 = Inr 2"
    by (simp add: n_split_def)
  show ?thesis
    using train_test_assertion[of "NDArray [3] [0, 1, 2 :: real]" _ "1 / 2" 2 2 1 1, OF _ n] n
    by (simp add: len_def)
qed

section \<open>Claims about the dataset loader\<close>

text \<open>
  Claim C10. The module binds no name \<^verbatim>\<open>arff\<close>, and Python's builtins have none either, so
  for every path and every \<^verbatim>\<open>fmt_spec\<close> the call \<^verbatim>\<open>arff_to_data(path, fmt_spec)\<close> fails with
  \<^verbatim>\<open>NameError\<close> in its first statement, whatever the rest of the body would do.
\<close>

theorem arff_to_data_name_error:
  assumes "''arff'' \<notin> set builtins"
  shows "arff_to_data builtins body path fmt_spec = Inl (NameError ''arff'')"
  using assms by (simp add: arff_to_data_def load_global_def module_globals_def)

text \<open>
  C10 for a builtin namespace of four names.
\<close>

theorem arff_to_data_name_error_witness:
  "''arff'' \<notin> set [''len'', ''float'', ''int'', ''print'']
   \<and> arff_to_data [''len'', ''float'', ''int'', ''print''] (\<lambda>path fmt_spec. Inr ()) ''data.arff'' 1
       = Inl (NameError ''arff'')"
  using arff_to_data_name_error[of "[''len'', ''float'', ''int'', ''print'']"
      "\<lambda>path fmt_spec. Inr ()" "''data.arff''" 1]
  by simp

end
